theory Spec2Isabelle
  imports Main
begin

section \<open>Strings and the name sanitizer\<close>

text \<open>
  A JavaScript string is a sequence of UTF-16 code units; a code unit is modelled by its
  number. Literals of the source are written with \<open>js\<close>.
\<close>

type_synonym jsstring = "nat list"

definition js :: "string \<Rightarrow> jsstring" where
  "js s = map of_char s"

text \<open>
  The character class \<^verbatim>\<open>\w\<close> of a regular expression without flags: ASCII letters, digits
  and the underscore.
\<close>

definition is_word :: "nat \<Rightarrow> bool" where
  "is_word c \<longleftrightarrow> (48 \<le> c \<and> c \<le> 57) \<or> (65 \<le> c \<and> c \<le> 90) \<or> c = 95 \<or> (97 \<le> c \<and> c \<le> 122)"

text \<open>
  The character class \<^verbatim>\<open>\s\<close>, which is also what \<^verbatim>\<open>trim\<close> removes: TAB, LF, VT, FF, CR,
  SPACE, NBSP, U+1680, U+2000 to U+200A, U+2028, U+2029, U+202F, U+205F, U+3000, U+FEFF.
\<close>

definition is_space :: "nat \<Rightarrow> bool" where
  "is_space c \<longleftrightarrow> (9 \<le> c \<and> c \<le> 13) \<or> c = 32 \<or> c = 160 \<or> c = 5760 \<or> (8192 \<le> c \<and> c \<le> 8202)
     \<or> c = 8232 \<or> c = 8233 \<or> c = 8239 \<or> c = 8287 \<or> c = 12288 \<or> c = 65279"

text \<open>\<^verbatim>\<open>str.replace(/[^\w\s_\-]/g, "")\<close>: every code unit outside the class is deleted.\<close>

definition strip :: "jsstring \<Rightarrow> jsstring" where
  "strip str = filter (\<lambda>c. is_word c \<or> is_space c \<or> c = 95 \<or> c = 45) str"

text \<open>\<^verbatim>\<open>.replace(/\s+/g, " ")\<close>: every maximal run of whitespace becomes one SPACE.\<close>

function collapse :: "jsstring \<Rightarrow> jsstring" where
  "collapse [] = []"
| "collapse (c # cs) =
     (if is_space c then 32 # collapse (dropWhile is_space cs) else c # collapse cs)"
  by pat_completeness auto
termination
  by (relation "measure length") (auto simp: less_Suc_eq_le length_dropWhile_le)

text \<open>\<^verbatim>\<open>.trim()\<close>: leading and trailing whitespace is removed.\<close>

definition trim :: "jsstring \<Rightarrow> jsstring" where
  "trim str = rev (dropWhile is_space (rev (dropWhile is_space str)))"

text \<open>
  \<^verbatim>\<open>.toLowerCase()\<close>. Where \<open>sanitizeName\<close> calls it the string holds ASCII word characters,
  SPACE and the hyphen only (lemma \<open>lowered_input_ascii\<close> below), and on these the
  function maps \<open>A\<close> to \<open>Z\<close> onto \<open>a\<close> to \<open>z\<close> and keeps the rest.
\<close>

definition lower :: "nat \<Rightarrow> nat" where
  "lower c = (if 65 \<le> c \<and> c \<le> 90 then c + 32 else c)"

definition toLowerCase :: "jsstring \<Rightarrow> jsstring" where
  "toLowerCase str = map lower str"

text \<open>
  \<^verbatim>\<open>function sanitizeName(str) {
    return str.replace(/[^\w\s_\-]/g, "").replace(/\s+/g, " ").trim().toLowerCase() }\<close>
  (the same text in every variant of the script).
\<close>

definition sanitizeName :: "jsstring \<Rightarrow> jsstring" where
  "sanitizeName str = toLowerCase (trim (collapse (strip str)))"

text \<open>
  Two auxiliary predicates for reasoning about sanitized names: \<open>keep\<close> is the class the
  first replacement leaves, and \<open>spaced\<close> says that every whitespace code unit is a SPACE
  that is not followed by whitespace.
\<close>

definition keep :: "nat \<Rightarrow> bool" where
  "keep c \<longleftrightarrow> is_word c \<or> is_space c \<or> c = 95 \<or> c = 45"

fun spaced :: "jsstring \<Rightarrow> bool" where
  "spaced [] = True"
| "spaced [c] = (is_space c \<longrightarrow> c = 32)"
| "spaced (c # d # cs) = ((is_space c \<longrightarrow> c = 32 \<and> \<not> is_space d) \<and> spaced (d # cs))"

section \<open>State of the script (latest variant, src/unnamed/part_001)\<close>

text \<open>
  The maps of the script are plain objects, so a key that is not an own property is
  looked up in \<^verbatim>\<open>Object.prototype\<close>. An object is modelled by the map of its own
  properties; reading a property gives \<^verbatim>\<open>undefined\<close>, the own value, or the value inherited
  under that key (a function, or \<^verbatim>\<open>Object.prototype\<close> itself for \<^verbatim>\<open>__proto__\<close>), which is
  truthy and equal to no string and to no truth value.
\<close>

datatype 'a property = Undefined | Value 'a | Inherited jsstring

definition proto_keys :: "jsstring list" where
  "proto_keys =
     [js ''constructor'', js ''__defineGetter__'', js ''__defineSetter__'', js ''hasOwnProperty'',
      js ''__lookupGetter__'', js ''__lookupSetter__'', js ''isPrototypeOf'',
      js ''propertyIsEnumerable'', js ''toString'', js ''valueOf'', js ''__proto__'',
      js ''toLocaleString'']"

text \<open>\<^verbatim>\<open>obj[k]\<close>.\<close>

definition js_get :: "(jsstring \<rightharpoonup> 'a) \<Rightarrow> jsstring \<Rightarrow> 'a property" where
  "js_get obj k =
     (case obj k of
        Some v \<Rightarrow> Value v
      | None \<Rightarrow> if k \<in> set proto_keys then Inherited k else Undefined)"

text \<open>
  \<^verbatim>\<open>obj[k] = v\<close> for a string or a truth value \<open>v\<close>: the setter of \<^verbatim>\<open>__proto__\<close> ignores a value
  that is not an object, so the assignment does nothing unless \<^verbatim>\<open>__proto__\<close> is an own
  property (as after \<^verbatim>\<open>JSON.parse\<close> of a file that has the key); every other key becomes
  an own property.
\<close>

definition js_set :: "(jsstring \<rightharpoonup> 'a) \<Rightarrow> jsstring \<Rightarrow> 'a \<Rightarrow> (jsstring \<rightharpoonup> 'a)" where
  "js_set obj k v = (if k = js ''__proto__'' \<and> obj k = None then obj else obj(k \<mapsto> v))"

text \<open>\<^verbatim>\<open>k in obj\<close>.\<close>

definition js_in :: "jsstring \<Rightarrow> (jsstring \<rightharpoonup> 'a) \<Rightarrow> bool" where
  "js_in k obj \<longleftrightarrow> obj k \<noteq> None \<or> k \<in> set proto_keys"

text \<open>
  The property key a value read from a map of strings turns into when it is used as an
  index: the string itself, \<^verbatim>\<open>"undefined"\<close>, and for an inherited value its conversion to a
  string.
\<close>

definition key_of :: "jsstring property \<Rightarrow> jsstring" where
  "key_of p =
     (case p of
        Value k \<Rightarrow> k
      | Undefined \<Rightarrow> js ''undefined''
      | Inherited k \<Rightarrow>
          if k = js ''__proto__'' then js ''[object Object]''
          else if k = js ''constructor'' then js ''function Object() { [native code] }''
          else js ''function '' @ k @ js ''() { [native code] }'')"

text \<open>Truthiness of a value read from a map of strings: the empty string is falsy.\<close>

definition truthy_prop :: "jsstring property \<Rightarrow> bool" where
  "truthy_prop p = (case p of Undefined \<Rightarrow> False | Value k \<Rightarrow> k \<noteq> [] | Inherited k \<Rightarrow> True)"

text \<open>
  The object \<open>data\<close> that is written to the data file: the user name (\<open>None\<close> is \<^verbatim>\<open>null\<close>) and
  the own properties of its three maps.
\<close>

record persisted =
  hueUsername :: "jsstring option"
  sensorVals :: "jsstring \<rightharpoonup> bool"
  sensorNames :: "jsstring \<rightharpoonup> jsstring"
  sensorNameById :: "jsstring \<rightharpoonup> jsstring"

text \<open>A \<^verbatim>\<open>huejay.Client\<close>, as far as the script configures it.\<close>

record client =
  host :: jsstring
  username :: "jsstring option"

text \<open>
  A group of the bridge. The bridge sends \<open>on\<close> as a truth value; the script may assign
  it whatever it reads from \<open>data.sensorVals\<close>.
\<close>

record group =
  name :: jsstring
  on :: "bool property"

text \<open>The module-level variables.\<close>

record state =
  isNight :: "bool option"
  onlyControlAtNight :: bool
  isWriting :: bool
  hue :: "client option"
  data :: persisted

text \<open>
  What a handler does to the outside, in the order of the calls: \<^verbatim>\<open>fs.writeFile\<close> with the
  serialised \<open>data\<close>, \<^verbatim>\<open>hiome.publish\<close> on the status topic (retained; \<open>None\<close> is the empty
  payload, \<open>Some v\<close> the JSON object with \<open>val = v\<close>), \<^verbatim>\<open>hue.groups.getAll\<close>,
  \<^verbatim>\<open>hue.groups.save\<close>, \<^verbatim>\<open>Sentry.captureException\<close> and, in the first variant,
  \<^verbatim>\<open>console.log\<close>.
\<close>

datatype effect =
    WriteFile persisted
  | Publish "string option"
  | GetAll
  | Save group
  | CaptureException
  | ConsoleLog

text \<open>The outcome of a promise of the bridge library.\<close>

datatype 'a settled = Fulfilled 'a | Rejected

definition CONNECTED :: string where "CONNECTED = ''connected''"
definition NO_BRIDGES_FOUND :: string where "NO_BRIDGES_FOUND = ''no_bridges_found''"
definition NO_LINK_PUSHED :: string where "NO_LINK_PUSHED = ''no_link_pushed''"
definition FAILURE :: string where "FAILURE = ''fail''"

text \<open>Truthiness of a string that may be \<^verbatim>\<open>null\<close> or \<^verbatim>\<open>undefined\<close>: the empty string is falsy.\<close>

definition truthy :: "'a list option \<Rightarrow> bool" where
  "truthy x \<longleftrightarrow> x \<noteq> None \<and> x \<noteq> Some []"

text \<open>
  \<^verbatim>\<open>persistDataFile\<close>: the write starts unless one is in flight; \<open>writeFile_done\<close> is the
  callback of \<^verbatim>\<open>fs.writeFile\<close>, which runs when the write has ended.
\<close>

definition persistDataFile :: "state \<Rightarrow> state \<times> effect list" where
  "persistDataFile s =
     (if \<not> isWriting s then (s\<lparr>isWriting := True\<rparr>, [WriteFile (data s)]) else (s, []))"

definition writeFile_done :: "state \<Rightarrow> state" where
  "writeFile_done s = s\<lparr>isWriting := False\<rparr>"

definition saveUsername :: "jsstring option \<Rightarrow> state \<Rightarrow> state \<times> effect list" where
  "saveUsername nm s = persistDataFile (s\<lparr>data := (data s)\<lparr>hueUsername := nm\<rparr>\<rparr>)"

definition sensorValChanged :: "jsstring \<Rightarrow> bool \<Rightarrow> state \<Rightarrow> bool \<times> state \<times> effect list" where
  "sensorValChanged sensorId occupied s =
     (if js_get (sensorVals (data s)) sensorId = Value occupied then (False, s, [])
      else
        let (s1, es) = persistDataFile
              (s\<lparr>data := (data s)\<lparr>sensorVals := js_set (sensorVals (data s)) sensorId occupied\<rparr>\<rparr>)
        in (True, s1, es))"

definition updateSensorName :: "jsstring \<Rightarrow> jsstring \<Rightarrow> state \<Rightarrow> state \<times> effect list" where
  "updateSensorName sensorId sensorName s =
     (if js_get (sensorNames (data s)) sensorName \<noteq> Value sensorId then
        persistDataFile
          (s\<lparr>data := (data s)\<lparr>sensorNames := js_set (sensorNames (data s)) sensorName sensorId,
                               sensorNameById := js_set (sensorNameById (data s)) sensorId sensorName\<rparr>\<rparr>)
      else (s, []))"

text \<open>\<^verbatim>\<open>publish(status)\<close>: a falsy status clears the retained message.\<close>

definition publish :: "string option \<Rightarrow> effect list" where
  "publish status = (if truthy status then [Publish status] else [Publish None])"

definition disconnect :: "state \<Rightarrow> state \<times> effect list" where
  "disconnect s =
     (let (s1, es) = saveUsername None s;
          s2 = s1\<lparr>hue := None\<rparr>
      in (s2, es @ publish None))"

section \<open>Pairing with a bridge\<close>

text \<open>
  The answers of the bridges, which the script cannot influence: whether \<^verbatim>\<open>bridge.ping()\<close>
  of a host fulfils, whether \<^verbatim>\<open>bridge.isAuthenticated()\<close> fulfils for a host and a user
  name, and how \<^verbatim>\<open>users.create\<close> of a host settles: with a user, with a \<^verbatim>\<open>huejay.Error\<close>
  of some type (type 101: the link button was not pressed), or with another error.
\<close>

datatype create_result = Created jsstring | HuejayError nat | OtherError

record bridge_api =
  ping :: "jsstring \<Rightarrow> bool"
  isAuthenticated :: "jsstring \<Rightarrow> jsstring \<Rightarrow> bool"
  create :: "jsstring \<Rightarrow> create_result"

definition createUser :: "bridge_api \<Rightarrow> jsstring \<Rightarrow> state \<Rightarrow> string \<times> state \<times> effect list" where
  "createUser api h s =
     (case create api h of
        Created u \<Rightarrow>
          (let (s1, es) = saveUsername (Some u) s;
               s2 = s1\<lparr>hue := Some \<lparr>host = h, username = hueUsername (data s1)\<rparr>\<rparr>
           in (CONNECTED, s2, es))
      | HuejayError t \<Rightarrow>
          if t = 101 then (NO_LINK_PUSHED, s, []) else (FAILURE, s, [CaptureException])
      | OtherError \<Rightarrow> (FAILURE, s, [CaptureException]))"

text \<open>
  \<^verbatim>\<open>authenticateUser\<close> is called for every candidate inside \<^verbatim>\<open>bridgesFrd.map\<close>, before any
  promise settles. The call itself (\<open>authenticateUser_call\<close>) tests \<open>data.hueUsername\<close> and,
  if there is one, assigns \<open>hue\<close>; what follows when the promises settle
  (\<open>authenticateUser_settle\<close>) depends on that test, whose outcome \<open>u0\<close> is the same for all
  candidates. The candidates settle here in the order of the list; the script fixes no
  order, and the statuses they return do not depend on it.
\<close>

definition authenticateUser_call :: "jsstring \<Rightarrow> state \<Rightarrow> state" where
  "authenticateUser_call h s =
     (if truthy (hueUsername (data s))
      then s\<lparr>hue := Some \<lparr>host = h, username = hueUsername (data s)\<rparr>\<rparr> else s)"

definition authenticateUser_settle ::
    "bridge_api \<Rightarrow> jsstring option \<Rightarrow> jsstring \<Rightarrow> state \<Rightarrow> string \<times> state \<times> effect list" where
  "authenticateUser_settle api u0 h s =
     (case u0 of
        None \<Rightarrow> createUser api h s
      | Some u \<Rightarrow>
          if u = [] then createUser api h s
          else if isAuthenticated api h u then (CONNECTED, s, [])
          else createUser api h (s\<lparr>hue := None\<rparr>))"

fun settle_all ::
    "bridge_api \<Rightarrow> jsstring option \<Rightarrow> jsstring list \<Rightarrow> state \<Rightarrow> string list \<times> state \<times> effect list" where
  "settle_all api u0 [] s = ([], s, [])"
| "settle_all api u0 (h # hs) s =
     (let (r, s1, es1) = authenticateUser_settle api u0 h s;
          (rs, s2, es2) = settle_all api u0 hs s1
      in (r # rs, s2, es1 @ es2))"

text \<open>
  \<^verbatim>\<open>[...new Set(pingables)]\<close> keeps the first occurrence of every element, in order.
\<close>

fun uniq :: "'a list \<Rightarrow> 'a list" where
  "uniq [] = []"
| "uniq (x # xs) = x # uniq (removeAll x xs)"

text \<open>
  \<open>bridgesFrd\<close>: the hosts that answered the ping, without duplicates and without falsy
  entries (\<^verbatim>\<open>null\<close> for a failed ping, and an empty address).
\<close>

definition bridgesFrd :: "bridge_api \<Rightarrow> jsstring list \<Rightarrow> jsstring list" where
  "bridgesFrd api bridges =
     concat (map (\<lambda>x. case x of None \<Rightarrow> [] | Some ip \<Rightarrow> if ip = [] then [] else [ip])
       (uniq (map (\<lambda>ip. if ping api ip then Some ip else None) bridges)))"

text \<open>The status published once every candidate has settled.\<close>

definition report :: "string list \<Rightarrow> effect list" where
  "report authenticatable =
     (if length (filter (\<lambda>x. x = CONNECTED) authenticatable) = 1 then publish (Some CONNECTED)
      else if list_ex (\<lambda>x. x = FAILURE) authenticatable then publish (Some FAILURE)
      else publish (Some NO_LINK_PUSHED))"

definition validateBridges :: "bridge_api \<Rightarrow> jsstring list \<Rightarrow> state \<Rightarrow> state \<times> effect list" where
  "validateBridges api bridges s =
     (let hosts = bridgesFrd api bridges
      in if length hosts = 0 then (s, publish (Some NO_BRIDGES_FOUND))
         else
           let s1 = fold authenticateUser_call hosts s;
               (authenticatable, s2, es) = settle_all api (hueUsername (data s)) hosts s1
           in (s2, es @ report authenticatable))"

text \<open>\<^verbatim>\<open>connect\<close>: the discovery either fulfils with the addresses found or rejects.\<close>

definition connect :: "bridge_api \<Rightarrow> jsstring list settled \<Rightarrow> state \<Rightarrow> state \<times> effect list" where
  "connect api discovered s =
     (case discovered of
        Fulfilled bridges \<Rightarrow> validateBridges api bridges s
      | Rejected \<Rightarrow> (s, publish (Some FAILURE) @ [CaptureException]))"

section \<open>The message handler\<close>

text \<open>
  The branches of \<^verbatim>\<open>hiome.on('message', ...)\<close> for the topics \<^verbatim>\<open>occupancy\<close>, \<^verbatim>\<open>name\<close>,
  \<^verbatim>\<open>position\<close> and \<^verbatim>\<open>night_only\<close>, each applied to the sensor id of the topic and to the
  \<open>val\<close> of the parsed message: a number for an occupancy (\<^verbatim>\<open>message['val'] > 0\<close>), a string
  for a name and for the position of the sun, a truth value for the policy. The answer
  of the bridge to \<^verbatim>\<open>getAll\<close> is an argument; the callback of the promise is run within
  the handler, so the variables it reads have the values the handler left.
\<close>

text \<open>
  The loop over the groups in the occupancy branch: it returns at the first match.
  \<open>sensorName\<close> is what \<^verbatim>\<open>data.sensorNameById[sensorId]\<close> gave; \<^verbatim>\<open>===\<close> holds for an own
  string equal to the sanitized name only.
\<close>

fun occupancy_groups :: "state \<Rightarrow> jsstring property \<Rightarrow> bool \<Rightarrow> group list \<Rightarrow> effect list" where
  "occupancy_groups s sensorName occupied [] = []"
| "occupancy_groups s sensorName occupied (g # gs) =
     (if Value (sanitizeName (name g)) = sensorName then
        [Save (if occupied \<and> (isNight s = Some True \<or> \<not> onlyControlAtNight s) then g\<lparr>on := Value True\<rparr>
               else if \<not> occupied then g\<lparr>on := Value False\<rparr>
               else g)]
      else occupancy_groups s sensorName occupied gs)"

definition occupancy :: "jsstring \<Rightarrow> int \<Rightarrow> group list settled \<Rightarrow> state \<Rightarrow> state \<times> effect list" where
  "occupancy sensorId val answer s =
     (let occupied = (val > 0);
          (changed, s1, es) = sensorValChanged sensorId occupied s
      in if \<not> changed \<or> hue s1 = None then (s1, es)
         else
           let sensorName = js_get (sensorNameById (data s1)) sensorId
           in if \<not> truthy_prop sensorName then (s1, es)
              else (s1, es @ [GetAll] @
                     (case answer of
                        Fulfilled groups \<Rightarrow> occupancy_groups s1 sensorName occupied groups
                      | Rejected \<Rightarrow> [CaptureException])))"

definition name_event :: "jsstring \<Rightarrow> jsstring \<Rightarrow> state \<Rightarrow> state \<times> effect list" where
  "name_event sensorId val s = updateSensorName sensorId (sanitizeName val) s"

text \<open>
  The loop over the groups in the position branch: every group whose sanitized name is
  \<^verbatim>\<open>in data.sensorNames\<close> is saved, with
  \<^verbatim>\<open>group.on = data.sensorVals[data.sensorNames[santizedGroupName]]\<close>.
\<close>

fun position_groups :: "state \<Rightarrow> group list \<Rightarrow> effect list" where
  "position_groups s [] = []"
| "position_groups s (g # gs) =
     (let santizedGroupName = sanitizeName (name g)
      in if js_in santizedGroupName (sensorNames (data s)) then
           Save (g\<lparr>on := js_get (sensorVals (data s))
                            (key_of (js_get (sensorNames (data s)) santizedGroupName))\<rparr>)
             # position_groups s gs
         else position_groups s gs)"

definition position :: "jsstring \<Rightarrow> group list settled \<Rightarrow> state \<Rightarrow> state \<times> effect list" where
  "position val answer s =
     (let wasNight = isNight s;
          s1 = s\<lparr>isNight := Some (val = js ''sunset'')\<rparr>
      in if wasNight = None \<or> isNight s1 = wasNight \<or> hue s1 = None \<or> isNight s1 \<noteq> Some True
         then (s1, [])
         else (s1, GetAll #
                (case answer of
                   Fulfilled groups \<Rightarrow> position_groups s1 groups
                 | Rejected \<Rightarrow> [CaptureException])))"

definition night_only :: "bool \<Rightarrow> state \<Rightarrow> state \<times> effect list" where
  "night_only val s = (s\<lparr>onlyControlAtNight := val\<rparr>, [])"

text \<open>The calls of \<^verbatim>\<open>hue.groups.save\<close> and of \<^verbatim>\<open>hue.groups.getAll\<close> among the effects.\<close>

fun saves :: "effect list \<Rightarrow> group list" where
  "saves [] = []"
| "saves (Save g # es) = g # saves es"
| "saves (e # es) = saves es"

fun group_calls :: "effect list \<Rightarrow> effect list" where
  "group_calls [] = []"
| "group_calls (GetAll # es) = GetAll # group_calls es"
| "group_calls (Save g # es) = Save g # group_calls es"
| "group_calls (e # es) = group_calls es"

section \<open>The first variant (src/main.js)\<close>

text \<open>
  In \<^verbatim>\<open>src/main.js\<close> the handler is installed by \<^verbatim>\<open>scanHiome\<close> once a bridge is paired, so
  there is always a client; there is no policy flag and no map from ids to names; the
  name of the sensor comes with the occupancy message. The functions below use the
  fields \<open>isNight\<close>, \<open>isWriting\<close> and \<open>data\<close> of the state only. The second script of
  \<^verbatim>\<open>src/unnamed/part_000\<close> has the same solar branch (its \<^verbatim>\<open>catch\<close> logs twice).
\<close>

text \<open>
  \<^verbatim>\<open>isNight && b\<close>: a falsy \<open>isNight\<close> (\<^verbatim>\<open>undefined\<close> or \<^verbatim>\<open>false\<close>) is the result, otherwise \<open>b\<close>.
\<close>

definition js_and :: "bool option \<Rightarrow> bool property \<Rightarrow> bool property" where
  "js_and a b = (case a of None \<Rightarrow> Undefined | Some False \<Rightarrow> Value False | Some True \<Rightarrow> b)"

text \<open>\<^verbatim>\<open>str.replace(pat, rep)\<close> with a string pattern: the first occurrence is replaced.\<close>

fun replace_first :: "jsstring \<Rightarrow> jsstring \<Rightarrow> jsstring \<Rightarrow> jsstring" where
  "replace_first pat rep [] = (if pat = [] then rep else [])"
| "replace_first pat rep (c # cs) =
     (if take (length pat) (c # cs) = pat then rep @ drop (length pat) (c # cs)
      else c # replace_first pat rep cs)"

definition main_sensorValChanged ::
    "jsstring \<Rightarrow> jsstring \<Rightarrow> bool \<Rightarrow> state \<Rightarrow> bool \<times> state \<times> effect list" where
  "main_sensorValChanged sensorId sensorName occupied s =
     (if js_get (sensorVals (data s)) sensorId = Value occupied then (False, s, [])
      else
        let s1 = s\<lparr>data := (data s)\<lparr>sensorVals := js_set (sensorVals (data s)) sensorId occupied,
                                     sensorNames := js_set (sensorNames (data s)) sensorName sensorId\<rparr>\<rparr>
        in if \<not> isWriting s1 then (True, s1\<lparr>isWriting := True\<rparr>, [WriteFile (data s1)])
           else (True, s1, []))"

fun main_occupancy_groups :: "state \<Rightarrow> jsstring \<Rightarrow> bool \<Rightarrow> group list \<Rightarrow> effect list" where
  "main_occupancy_groups s sensorName occupied [] = []"
| "main_occupancy_groups s sensorName occupied (g # gs) =
     (if sanitizeName (name g) = sensorName
      then [Save (g\<lparr>on := js_and (isNight s) (Value occupied)\<rparr>)]
      else main_occupancy_groups s sensorName occupied gs)"

definition main_occupancy ::
    "jsstring \<Rightarrow> jsstring \<Rightarrow> int \<Rightarrow> group list settled \<Rightarrow> state \<Rightarrow> state \<times> effect list" where
  "main_occupancy room nm val answer s =
     (let sensorId = room;
          sensorName = sanitizeName (replace_first (js ''Occupancy'') [] nm);
          occupied = (val > 0);
          (changed, s1, es) = main_sensorValChanged sensorId sensorName occupied s
      in if \<not> changed then (s1, es)
         else (s1, es @ [GetAll] @
                (case answer of
                   Fulfilled groups \<Rightarrow> main_occupancy_groups s1 sensorName occupied groups
                 | Rejected \<Rightarrow> [ConsoleLog])))"

fun main_solar_groups :: "state \<Rightarrow> group list \<Rightarrow> effect list" where
  "main_solar_groups s [] = []"
| "main_solar_groups s (g # gs) =
     (let santizedGroupName = sanitizeName (name g)
      in if js_in santizedGroupName (sensorNames (data s)) then
           Save (g\<lparr>on := js_and (isNight s)
                            (js_get (sensorVals (data s))
                               (key_of (js_get (sensorNames (data s)) santizedGroupName)))\<rparr>)
             # main_solar_groups s gs
         else main_solar_groups s gs)"

definition main_solar :: "jsstring \<Rightarrow> group list settled \<Rightarrow> state \<Rightarrow> state \<times> effect list" where
  "main_solar val answer s =
     (let wasNight = isNight s;
          s1 = s\<lparr>isNight := Some (val = js ''sunset'')\<rparr>
      in if wasNight = None \<or> isNight s1 = wasNight then (s1, [])
         else (s1, GetAll #
                (case answer of
                   Fulfilled groups \<Rightarrow> main_solar_groups s1 groups
                 | Rejected \<Rightarrow> [ConsoleLog])))"

section \<open>Auxiliary notions for the statements\<close>

text \<open>The state after \<^verbatim>\<open>data.sensorVals[sensorId] = occupied\<close>.\<close>

definition stored :: "jsstring \<Rightarrow> bool \<Rightarrow> state \<Rightarrow> state" where
  "stored sensorId occupied s =
     s\<lparr>data := (data s)\<lparr>sensorVals := js_set (sensorVals (data s)) sensorId occupied\<rparr>\<rparr>"

text \<open>
  A group is known when its sanitized name is \<^verbatim>\<open>in data.sensorNames\<close>; its stored occupancy
  is what \<open>data.sensorVals\<close> gives for the id under that name.
\<close>

definition known_group :: "state \<Rightarrow> group \<Rightarrow> bool" where
  "known_group s g \<longleftrightarrow> js_in (sanitizeName (name g)) (sensorNames (data s))"

definition stored_occupancy :: "state \<Rightarrow> group \<Rightarrow> bool property" where
  "stored_occupancy s g =
     js_get (sensorVals (data s)) (key_of (js_get (sensorNames (data s)) (sanitizeName (name g))))"

text \<open>The payloads published on the status topic, in order.\<close>

fun published :: "effect list \<Rightarrow> string option list" where
  "published [] = []"
| "published (Publish v # es) = v # published es"
| "published (e # es) = published es"

text \<open>
  What a candidate does in an authentication round: the stored user name authenticates
  on it, or the bridge creates a user; \<open>status_of\<close> is the status \<^verbatim>\<open>authenticateUser\<close>
  then resolves to.
\<close>

definition authenticates :: "bridge_api \<Rightarrow> jsstring option \<Rightarrow> jsstring \<Rightarrow> bool" where
  "authenticates api u0 h = (case u0 of None \<Rightarrow> False | Some u \<Rightarrow> u \<noteq> [] \<and> isAuthenticated api h u)"

definition created :: "bridge_api \<Rightarrow> jsstring \<Rightarrow> bool" where
  "created api h = (case create api h of Created u \<Rightarrow> True | _ \<Rightarrow> False)"

definition status_of :: "bridge_api \<Rightarrow> jsstring option \<Rightarrow> jsstring \<Rightarrow> string" where
  "status_of api u0 h =
     (if authenticates api u0 h \<or> created api h then CONNECTED
      else if create api h = HuejayError 101 then NO_LINK_PUSHED else FAILURE)"

section \<open>Example data\<close>

text \<open>
  The initial values of the module variables; two groups; the state after the sensor
  \<open>r1\<close> was announced as \<open>Bedroom\<close> and a bridge was paired; the same with the room
  occupied; the same with a stored user name and no client yet; and two sets of bridge
  answers: the link button pressed nowhere, the same with another error on one bridge,
  and every bridge accepting the stored user.
\<close>

definition init :: state where
  "init = \<lparr>isNight = None, onlyControlAtNight = True, isWriting = False, hue = None,
           data = \<lparr>hueUsername = None, sensorVals = Map.empty, sensorNames = Map.empty,
                   sensorNameById = Map.empty\<rparr>\<rparr>"

definition bedroom :: group where
  "bedroom = \<lparr>name = js ''Bedroom'', on = Value False\<rparr>"

definition hall :: group where
  "hall = \<lparr>name = js ''Hall'', on = Value False\<rparr>"

definition paired :: state where
  "paired =
     (let s = fst (name_event (js ''r1'') (js ''Bedroom'') init)
      in s\<lparr>hue := Some \<lparr>host = js ''10.0.0.2'', username = Some (js ''hiome'')\<rparr>,
            data := (data s)\<lparr>hueUsername := Some (js ''hiome'')\<rparr>\<rparr>)"

definition occupied_bedroom :: state where
  "occupied_bedroom = paired\<lparr>data := (data paired)\<lparr>sensorVals := [js ''r1'' \<mapsto> True]\<rparr>\<rparr>"

definition lounge :: group where
  "lounge = \<lparr>name = js ''Lounge'', on = Value False\<rparr>"

text \<open>
  The sensor \<open>r1\<close> announced as \<open>Lounge\<close> and then as \<open>Bedroom\<close> again, by night with
  the write of the data file ended.
\<close>

definition renamed_back :: state where
  "renamed_back =
     fst (name_event (js ''r1'') (js ''Bedroom'')
       (fst (name_event (js ''r1'') (js ''Lounge'') (writeFile_done (paired\<lparr>isNight := Some True\<rparr>)))))"

definition known_user :: state where
  "known_user = paired\<lparr>isNight := Some True, hue := None\<rparr>"

definition pressed_nowhere :: bridge_api where
  "pressed_nowhere = \<lparr>ping = (\<lambda>ip. True), isAuthenticated = (\<lambda>h u. False),
                       create = (\<lambda>h. HuejayError 101)\<rparr>"

definition one_broken :: bridge_api where
  "one_broken = \<lparr>ping = (\<lambda>ip. True), isAuthenticated = (\<lambda>h u. False),
                  create = (\<lambda>h. if h = js ''10.0.0.3'' then OtherError else HuejayError 101)\<rparr>"

definition both_authenticate :: bridge_api where
  "both_authenticate = \<lparr>ping = (\<lambda>ip. True), isAuthenticated = (\<lambda>h u. True),
                         create = (\<lambda>h. HuejayError 101)\<rparr>"

section \<open>Properties of the sanitizer\<close>

lemma is_space_32: "is_space 32" by (simp add: is_space_def)

lemma set_collapse: "set (collapse s) \<subseteq> insert 32 (set s)"
proof (induction s rule: collapse.induct)
  case 1 show ?case by simp
next
  case (2 c cs)
  show ?case
  proof (cases "is_space c")
    case True
    with 2 have "set (collapse (dropWhile is_space cs)) \<subseteq> insert 32 (set (dropWhile is_space cs))" by simp
    moreover have "set (dropWhile is_space cs) \<subseteq> set cs" by (rule set_dropWhileD[THEN subsetI]) 
    ultimately show ?thesis using True by auto
  next
    case False
    with 2 show ?thesis by auto
  qed
qed

lemma hd_collapse_dropWhile: "collapse (dropWhile is_space cs) = [] \<or> \<not> is_space (hd (collapse (dropWhile is_space cs)))"
proof (cases "dropWhile is_space cs")
  case Nil then show ?thesis by (simp del: dropWhile_eq_Nil_conv)
next
  case (Cons d ds)
  then have "\<not> is_space d" using hd_dropWhile[of is_space cs] by auto
  with Cons show ?thesis by simp
qed

lemma spaced_Cons: "spaced (c # s) \<longleftrightarrow> (is_space c \<longrightarrow> c = 32 \<and> (s = [] \<or> \<not> is_space (hd s))) \<and> spaced s"
  by (cases s) auto

lemma spaced_collapse: "spaced (collapse s)"
proof (induction s rule: collapse.induct)
  case 1 show ?case by simp
next
  case (2 c cs)
  show ?case
  proof (cases "is_space c")
    case True
    with 2 show ?thesis using hd_collapse_dropWhile[of cs] by (simp add: spaced_Cons)
  next
    case False
    with 2 show ?thesis by (simp add: spaced_Cons)
  qed
qed

lemma collapse_spaced: "spaced s \<Longrightarrow> collapse s = s"
proof (induction s rule: spaced.induct)
  case 1 show ?case by simp
next
  case (2 c) then show ?case by simp
next
  case (3 c d cs)
  then show ?case by auto
qed

lemma spaced_drop: "spaced s \<Longrightarrow> spaced (drop n s)"
proof (induction n arbitrary: s)
  case 0 then show ?case by simp
next
  case (Suc n)
  then show ?case by (cases s) (auto simp: spaced_Cons)
qed

lemma spaced_take: "spaced s \<Longrightarrow> spaced (take n s)"
proof (induction s arbitrary: n)
  case Nil then show ?case by simp
next
  case (Cons c s)
  show ?case
  proof (cases n)
    case 0 then show ?thesis by simp
  next
    case (Suc m)
    have "take m s = [] \<or> hd (take m s) = hd s" by (cases s; cases m) auto
    with Cons Suc show ?thesis by (auto simp: spaced_Cons)
  qed
qed

lemma trim_infix: "\<exists>i j. trim s = take i (drop j s)"
proof -
  define u where "u = dropWhile is_space s"
  have "u = drop (length (takeWhile is_space s)) s"
    unfolding u_def by (rule dropWhile_eq_drop)
  moreover have "rev (dropWhile is_space (rev u)) = take (length u - length (takeWhile is_space (rev u))) u"
    by (simp add: dropWhile_eq_drop rev_drop)
  ultimately show ?thesis unfolding trim_def u_def by metis
qed

lemma spaced_trim: "spaced s \<Longrightarrow> spaced (trim s)"
  using trim_infix[of s] by (auto simp: spaced_take spaced_drop)

lemma set_trim: "set (trim s) \<subseteq> set s"
proof -
  obtain i j where "trim s = take i (drop j s)" using trim_infix by blast
  then show ?thesis by (metis set_take_subset set_drop_subset subset_trans)
qed

lemma is_space_lower: "is_space (lower c) = is_space c"
  by (auto simp: is_space_def lower_def)

lemma keep_lower: "keep c \<Longrightarrow> keep (lower c)"
  by (auto simp: keep_def is_space_def is_word_def lower_def)

lemma lower_lower: "lower (lower c) = lower c"
  by (simp add: lower_def)

lemma lower_eq_32: "lower c = 32 \<longleftrightarrow> c = 32"
  by (auto simp: lower_def)

lemma spaced_toLowerCase: "spaced s \<Longrightarrow> spaced (toLowerCase s)"
  unfolding toLowerCase_def
  by (induction s rule: spaced.induct) (auto simp: is_space_lower lower_eq_32)

lemma trim_toLowerCase: "trim (toLowerCase s) = toLowerCase (trim s)"
proof -
  have "is_space \<circ> lower = is_space" by (rule ext) (simp add: is_space_lower)
  then show ?thesis by (simp add: trim_def toLowerCase_def dropWhile_map rev_map)
qed

lemma dropWhile_fix: "s = [] \<or> \<not> P (hd s) \<Longrightarrow> dropWhile P s = s"
  by (cases s) auto

lemma trim_trim: "trim (trim s) = trim s"
proof -
  define w where "w = dropWhile is_space s"
  define r where "r = rev (dropWhile is_space (rev w))"
  have w: "w = [] \<or> \<not> is_space (hd w)"
    unfolding w_def using hd_dropWhile[of is_space s] by blast
  have "r = take (length w - length (takeWhile is_space (rev w))) w"
    unfolding r_def by (simp add: dropWhile_eq_drop rev_drop)
  then obtain n where r: "r = take n w" by blast
  have "r = [] \<or> (w \<noteq> [] \<and> hd r = hd w)" unfolding r by (cases w; cases n) auto
  with w have "r = [] \<or> \<not> is_space (hd r)" by auto
  then have 1: "dropWhile is_space r = r" by (rule dropWhile_fix)
  have "dropWhile is_space (rev r) = rev r" by (simp add: r_def)
  with 1 have "trim r = r" by (simp add: trim_def)
  then show ?thesis by (simp add: trim_def r_def w_def)
qed

lemma strip_keep: "\<forall>c\<in>set s. keep c \<Longrightarrow> strip s = s"
  by (simp add: strip_def keep_def)

lemma keep_sanitizeName: "\<forall>c\<in>set (sanitizeName s). keep c"
proof -
  have "\<forall>c\<in>set (strip s). keep c" by (simp add: strip_def keep_def)
  moreover have "keep 32" by (simp add: keep_def is_space_def)
  ultimately have "\<forall>c\<in>set (collapse (strip s)). keep c" using set_collapse[of "strip s"] by auto
  then have "\<forall>c\<in>set (trim (collapse (strip s))). keep c" using set_trim by blast
  then show ?thesis by (simp add: sanitizeName_def toLowerCase_def keep_lower)
qed

lemma collapse_space_is_32: "c \<in> set (collapse s) \<Longrightarrow> is_space c \<Longrightarrow> c = 32"
proof (induction s rule: collapse.induct)
  case 1 then show ?case by simp
next
  case (2 d ds)
  then show ?case by (cases "is_space d") auto
qed

lemma lowered_input_ascii:
  "\<forall>c\<in>set (trim (collapse (strip s))). is_word c \<or> c = 32 \<or> c = 45"
proof
  fix c assume c: "c \<in> set (trim (collapse (strip s)))"
  then have c': "c \<in> set (collapse (strip s))" using set_trim by blast
  then have "c = 32 \<or> c \<in> set (strip s)" using set_collapse by blast
  then have "keep c" by (auto simp: strip_def keep_def is_space_def)
  moreover have "is_space c \<longrightarrow> c = 32" using c' collapse_space_is_32 by blast
  ultimately show "is_word c \<or> c = 32 \<or> c = 45" by (auto simp: keep_def is_word_def)
qed

text \<open>
  C9. For every string \<open>x\<close>, sanitizing is idempotent:
  \<open>sanitizeName (sanitizeName x) = sanitizeName x\<close>, where \<open>sanitizeName\<close> deletes every
  code unit that is not a word character, whitespace, underscore or hyphen, replaces
  each run of whitespace by one space, trims and lowercases.
\<close>

theorem sanitizeName_idempotent: "sanitizeName (sanitizeName x) = sanitizeName x"
proof -
  define t where "t = sanitizeName x"
  have t: "t = toLowerCase (trim (collapse (strip x)))" by (simp add: t_def sanitizeName_def)
  have 1: "strip t = t" unfolding t_def by (rule strip_keep) (rule keep_sanitizeName)
  have "spaced t" unfolding t by (intro spaced_toLowerCase spaced_trim spaced_collapse)
  then have 2: "collapse t = t" by (rule collapse_spaced)
  have 3: "trim t = t" unfolding t by (simp add: trim_toLowerCase trim_trim)
  have 4: "toLowerCase t = t" unfolding t by (simp add: toLowerCase_def lower_lower)
  show ?thesis unfolding t_def[symmetric] by (simp add: sanitizeName_def[of t] 1 2 3 4)
qed


lemma sanitizeName_example:
  "sanitizeName (js ''  Living   Room! (2nd)  '') = js ''living room 2nd''"
  by (simp add: sanitizeName_def js_def strip_def trim_def toLowerCase_def lower_def
      is_word_def is_space_def)

theorem sanitizeName_idempotent_witness:
  "sanitizeName (sanitizeName (js ''  Living   Room! (2nd)  '')) = js ''living room 2nd''"
  using sanitizeName_idempotent [of "js ''  Living   Room! (2nd)  ''"]
  by (simp add: sanitizeName_example)

section \<open>Evaluating the examples\<close>

lemmas sanitize_simps = sanitizeName_def js_def strip_def trim_def toLowerCase_def lower_def
      is_word_def is_space_def

lemma js_eq_iff [simp]: "js a = js b \<longleftrightarrow> a = b"
proof -
  have "inj (of_char :: char \<Rightarrow> nat)" by (rule injI) simp
  then show ?thesis unfolding js_def by (rule inj_map_eq_map)
qed

lemma js_eq_Nil [simp]: "js a = [] \<longleftrightarrow> a = []"
  by (simp add: js_def)

lemma sanitize_literals:
  "sanitizeName (js ''Bedroom'') = js ''bedroom''"
  "sanitizeName (js ''Hall'') = js ''hall''"
  "sanitizeName (js ''Lounge'') = js ''lounge''"
  by (simp_all add: sanitize_simps)

lemma sanitize_bedroom: "sanitizeName (name bedroom) = js ''bedroom''"
  by (simp add: bedroom_def sanitize_literals)

lemma sanitize_hall: "sanitizeName (name hall) = js ''hall''"
  by (simp add: hall_def sanitize_literals)

lemma sanitize_lounge: "sanitizeName (name lounge) = js ''lounge''"
  by (simp add: lounge_def sanitize_literals)

lemma js_get_own: "obj k = Some v \<Longrightarrow> js_get obj k = Value v"
  by (simp add: js_get_def)

lemma js_get_eq_Value: "js_get obj k = Value v \<longleftrightarrow> obj k = Some v"
  by (simp add: js_get_def split: option.split)

lemma js_set_plain: "k \<noteq> js ''__proto__'' \<Longrightarrow> js_set obj k v = obj(k \<mapsto> v)"
  by (simp add: js_set_def)

lemma js_get_set: "k \<noteq> js ''__proto__'' \<Longrightarrow> js_get (js_set obj k v) k = Value v"
  by (simp add: js_set_def js_get_def)

lemma paired_eq:
  "paired = \<lparr>isNight = None, onlyControlAtNight = True, isWriting = True,
            hue = Some \<lparr>host = js ''10.0.0.2'', username = Some (js ''hiome'')\<rparr>,
            data = \<lparr>hueUsername = Some (js ''hiome''), sensorVals = Map.empty,
                    sensorNames = [js ''bedroom'' \<mapsto> js ''r1''],
                    sensorNameById = [js ''r1'' \<mapsto> js ''bedroom'']\<rparr>\<rparr>"
  by (simp add: paired_def init_def name_event_def updateSensorName_def persistDataFile_def
      sanitize_literals js_get_eq_Value js_set_plain)

lemma paired_fields:
  "isNight paired = None" "onlyControlAtNight paired" "isWriting paired"
  "hue paired = Some \<lparr>host = js ''10.0.0.2'', username = Some (js ''hiome'')\<rparr>"
  "hueUsername (data paired) = Some (js ''hiome'')"
  "sensorVals (data paired) = Map.empty"
  "sensorNames (data paired) = [js ''bedroom'' \<mapsto> js ''r1'']"
  "sensorNameById (data paired) = [js ''r1'' \<mapsto> js ''bedroom'']"
  by (simp_all add: paired_eq)

lemma known_user_fields:
  "isNight known_user = Some True" "onlyControlAtNight known_user" "hue known_user = None"
  "hueUsername (data known_user) = Some (js ''hiome'')"
  "sensorVals (data known_user) = Map.empty"
  "sensorNameById (data known_user) = [js ''r1'' \<mapsto> js ''bedroom'']"
  by (simp_all add: known_user_def paired_fields)

lemma bridgesFrd_two:
  "bridgesFrd both_authenticate [js ''10.0.0.2'', js ''10.0.0.3''] = [js ''10.0.0.2'', js ''10.0.0.3'']"
  "bridgesFrd pressed_nowhere [js ''10.0.0.2'', js ''10.0.0.3''] = [js ''10.0.0.2'', js ''10.0.0.3'']"
  "bridgesFrd one_broken [js ''10.0.0.2'', js ''10.0.0.3''] = [js ''10.0.0.2'', js ''10.0.0.3'']"
  by (simp_all add: bridgesFrd_def both_authenticate_def pressed_nowhere_def one_broken_def)

lemma statuses_distinct [simp]:
  "CONNECTED \<noteq> FAILURE" "CONNECTED \<noteq> NO_LINK_PUSHED" "FAILURE \<noteq> NO_LINK_PUSHED"
  "FAILURE \<noteq> CONNECTED" "NO_LINK_PUSHED \<noteq> CONNECTED" "NO_LINK_PUSHED \<noteq> FAILURE"
  "CONNECTED \<noteq> []" "FAILURE \<noteq> []" "NO_LINK_PUSHED \<noteq> []" "NO_BRIDGES_FOUND \<noteq> []"
  by (simp_all add: CONNECTED_def FAILURE_def NO_LINK_PUSHED_def NO_BRIDGES_FOUND_def)

section \<open>Effects of the helpers\<close>

lemma saves_append: "saves (xs @ ys) = saves xs @ saves ys"
  by (induction xs rule: saves.induct) auto

lemma group_calls_append: "group_calls (xs @ ys) = group_calls xs @ group_calls ys"
  by (induction xs rule: group_calls.induct) auto

lemma saves_group_calls: "saves (group_calls es) = saves es"
  by (induction es rule: group_calls.induct) auto

lemma published_append: "published (xs @ ys) = published xs @ published ys"
  by (induction xs rule: published.induct) auto

lemma persistDataFile_fields [simp]:
  "data (fst (persistDataFile s)) = data s"
  "hue (fst (persistDataFile s)) = hue s"
  "isNight (fst (persistDataFile s)) = isNight s"
  "onlyControlAtNight (fst (persistDataFile s)) = onlyControlAtNight s"
  by (simp_all add: persistDataFile_def)

lemma persist_quiet [simp]:
  "saves (snd (persistDataFile s)) = []" "group_calls (snd (persistDataFile s)) = []"
  by (simp_all add: persistDataFile_def)

lemma published_persist [simp]: "published (snd (persistDataFile s)) = []"
  by (simp add: persistDataFile_def)

lemma group_calls_publish [simp]: "group_calls (publish v) = []"
  by (simp add: publish_def)

section \<open>Disconnect\<close>

text \<open>
  C10, as stated, fails in one point: a disconnect while a write of the data file is in
  flight clears the credential in memory and starts no write of its own.
\<close>

theorem disconnect_drops_write:
  "isWriting paired \<and>
   hueUsername (data paired) = Some (js ''hiome'') \<and>
   hueUsername (data (fst (disconnect paired))) = None \<and>
   snd (disconnect paired) = [Publish None]"
  by (simp add: paired_fields disconnect_def saveUsername_def persistDataFile_def publish_def
      truthy_def)

text \<open>
  C10, amended. A disconnect clears only the paired credential: \<open>hueUsername\<close> becomes
  \<^verbatim>\<open>null\<close>, the client is dropped and the empty retained status is published; the data
  file is written with the cleared credential unless a write is in flight, in which
  case no write is started; and the occupancy map and both name maps of the persisted
  state are as before.
\<close>

theorem disconnect_frame:
  "hueUsername (data (fst (disconnect s))) = None \<and>
   hue (fst (disconnect s)) = None \<and>
   sensorVals (data (fst (disconnect s))) = sensorVals (data s) \<and>
   sensorNames (data (fst (disconnect s))) = sensorNames (data s) \<and>
   sensorNameById (data (fst (disconnect s))) = sensorNameById (data s) \<and>
   snd (disconnect s) =
     (if isWriting s then [] else [WriteFile ((data s)\<lparr>hueUsername := None\<rparr>)]) @ [Publish None]"
  by (simp add: disconnect_def saveUsername_def persistDataFile_def publish_def truthy_def)

theorem disconnect_frame_witness:
  "hueUsername (data (writeFile_done paired)) = Some (js ''hiome'') \<and>
   hueUsername (data (fst (disconnect (writeFile_done paired)))) = None \<and>
   hue (fst (disconnect (writeFile_done paired))) = None \<and>
   sensorNameById (data (fst (disconnect (writeFile_done paired)))) (js ''r1'')
     = Some (js ''bedroom'') \<and>
   snd (disconnect (writeFile_done paired))
     = [WriteFile ((data paired)\<lparr>hueUsername := None\<rparr>), Publish None]"
  using disconnect_frame [of "writeFile_done paired"]
  by (simp add: paired_fields writeFile_done_def)

section \<open>Occupancy events\<close>

lemma occupancy_unchanged:
  "sensorVals (data s) sensorId = Some (val > 0) \<Longrightarrow> occupancy sensorId val answer s = (s, [])"
  by (simp add: occupancy_def sensorValChanged_def js_get_own)

lemma occupancy_groups_cong:
  "isNight s' = isNight s \<Longrightarrow> onlyControlAtNight s' = onlyControlAtNight s \<Longrightarrow>
   occupancy_groups s' nm occ gs = occupancy_groups s nm occ gs"
  by (induction gs) auto

lemma occupancy_changed:
  assumes "sensorVals (data s) sensorId \<noteq> Some (0 < val)"
  shows "occupancy sensorId val answer s =
     (fst (persistDataFile (stored sensorId (0 < val) s)),
      snd (persistDataFile (stored sensorId (0 < val) s)) @
      (if hue s = None \<or> \<not> truthy_prop (js_get (sensorNameById (data s)) sensorId) then []
       else GetAll # (case answer of
                        Fulfilled gs \<Rightarrow>
                          occupancy_groups s (js_get (sensorNameById (data s)) sensorId) (0 < val) gs
                      | Rejected \<Rightarrow> [CaptureException])))"
proof -
  let ?p = "persistDataFile (stored sensorId (0 < val) s)"
  have 1: "sensorValChanged sensorId (0 < val) s = (True, fst ?p, snd ?p)"
    using assms by (simp add: sensorValChanged_def split_beta stored_def js_get_eq_Value)
  have 2: "hue (fst ?p) = hue s" "sensorNameById (data (fst ?p)) = sensorNameById (data s)"
    by (simp_all add: stored_def)
  have 3: "\<And>nm gs. occupancy_groups (fst ?p) nm (0 < val) gs = occupancy_groups s nm (0 < val) gs"
    by (rule occupancy_groups_cong) (simp_all add: stored_def)
  show ?thesis
    unfolding occupancy_def Let_def 1 prod.case 2 3 by simp
qed

lemma occupancy_stores:
  assumes "sensorId \<noteq> js ''__proto__''"
  shows "sensorVals (data (fst (occupancy sensorId val answer s))) sensorId = Some (val > 0)"
proof (cases "sensorVals (data s) sensorId = Some (val > 0)")
  case True
  then show ?thesis by (simp add: occupancy_unchanged)
next
  case False
  then show ?thesis
    using assms by (simp add: occupancy_changed stored_def js_set_plain)
qed

lemma occupancy_groups_first:
  assumes "\<forall>g'\<in>set pre. sanitizeName (name g') \<noteq> nm" "sanitizeName (name g) = nm"
  shows "occupancy_groups s (Value nm) occ (pre @ g # post) =
     [Save (if occ \<and> (isNight s = Some True \<or> \<not> onlyControlAtNight s) then g\<lparr>on := Value True\<rparr>
            else if \<not> occ then g\<lparr>on := Value False\<rparr> else g)]"
  using assms by (induction pre) auto

lemma occupancy_groups_le: "length (saves (occupancy_groups s nm occ gs)) \<le> Suc 0"
  by (induction gs) auto

lemma occupancy_groups_one:
  "\<exists>g\<in>set gs. sanitizeName (name g) = nm \<Longrightarrow>
   length (saves (occupancy_groups s (Value nm) occ gs)) = 1"
  by (induction gs) auto

lemma occupancy_groups_inherited: "occupancy_groups s (Inherited k) occ gs = []"
  by (induction gs) auto

text \<open>
  An occupancy event for a sensor without a name (none stored, or the empty string,
  which the test \<^verbatim>\<open>!sensorName\<close> treats alike), or without a client, reaches no group. For
  a sensor id that is a key of \<^verbatim>\<open>Object.prototype\<close> and has no stored name, the name read
  is an inherited value: the groups are fetched and none is saved.
\<close>

lemma occupancy_unnamed:
  "\<not> truthy_prop (js_get (sensorNameById (data s)) sensorId) \<Longrightarrow>
   group_calls (snd (occupancy sensorId val answer s)) = []"
  by (cases "sensorVals (data s) sensorId = Some (0 < val)")
     (simp_all add: occupancy_unchanged occupancy_changed group_calls_append)

lemma occupancy_no_bridge:
  "hue s = None \<Longrightarrow> group_calls (snd (occupancy sensorId val answer s)) = []"
  by (cases "sensorVals (data s) sensorId = Some (0 < val)")
     (simp_all add: occupancy_unchanged occupancy_changed group_calls_append)

lemma occupancy_inherited_name:
  assumes "sensorVals (data s) sensorId \<noteq> Some (0 < val)" "hue s \<noteq> None"
      and "sensorNameById (data s) sensorId = None" "sensorId \<in> set proto_keys"
  shows "group_calls (snd (occupancy sensorId val (Fulfilled gs) s)) = [GetAll]"
  using assms
  by (simp add: occupancy_changed group_calls_append js_get_def truthy_prop_def
      occupancy_groups_inherited)

text \<open>
  C1. An occupancy event that changes the stored value of a sensor while a client is
  there, for a sensor with a stored name: the bridge is asked for the groups once, and
  the first group whose sanitized name is the sensor's name is the only one saved. Its
  on-state is \<open>v\<close>: true when occupied and (night or not \<open>onlyControlAtNight\<close>), false when
  not occupied, whatever \<open>isNight\<close> and the flag are, and otherwise as fetched.
\<close>

theorem occupancy_policy:
  assumes changed: "sensorVals (data s) sensorId \<noteq> Some (0 < val)"
      and bridge: "hue s \<noteq> None"
      and named: "sensorNameById (data s) sensorId = Some nm" "nm \<noteq> []"
      and first: "\<forall>g'\<in>set pre. sanitizeName (name g') \<noteq> nm" "sanitizeName (name g) = nm"
  shows "\<exists>v. group_calls (snd (occupancy sensorId val (Fulfilled (pre @ g # post)) s))
               = [GetAll, Save (g\<lparr>on := v\<rparr>)] \<and>
             (0 < val \<and> (isNight s = Some True \<or> \<not> onlyControlAtNight s) \<longrightarrow> v = Value True) \<and>
             (\<not> 0 < val \<longrightarrow> v = Value False) \<and>
             (0 < val \<and> \<not> (isNight s = Some True \<or> \<not> onlyControlAtNight s) \<longrightarrow> v = on g)"
proof -
  let ?v = "if 0 < val \<and> (isNight s = Some True \<or> \<not> onlyControlAtNight s) then Value True
            else if \<not> 0 < val then Value False else on g"
  have "group_calls (snd (occupancy sensorId val (Fulfilled (pre @ g # post)) s))
          = [GetAll, Save (g\<lparr>on := ?v\<rparr>)]"
    using changed bridge named
    by (simp add: occupancy_changed group_calls_append js_get_own truthy_prop_def
        occupancy_groups_first [OF first])
  then show ?thesis by (intro exI [of _ ?v]) simp
qed

theorem occupancy_policy_witness:
  "group_calls (snd (occupancy (js ''r1'') 1 (Fulfilled [hall, bedroom]) (paired\<lparr>isNight := Some True\<rparr>)))
     = [GetAll, Save (bedroom\<lparr>on := Value True\<rparr>)]"
proof -
  let ?s = "paired\<lparr>isNight := Some True\<rparr>"
  have h1: "sensorVals (data ?s) (js ''r1'') \<noteq> Some (0 < (1::int))" by (simp add: paired_fields)
  have h2: "hue ?s \<noteq> None" by (simp add: paired_fields)
  have h3: "sensorNameById (data ?s) (js ''r1'') = Some (js ''bedroom'')" by (simp add: paired_fields)
  have h4: "js ''bedroom'' \<noteq> []" by simp
  have h5: "\<forall>g'\<in>set [hall]. sanitizeName (name g') \<noteq> js ''bedroom''" by (simp add: sanitize_hall)
  have h6: "sanitizeName (name bedroom) = js ''bedroom''" by (rule sanitize_bedroom)
  show ?thesis
    using occupancy_policy [OF h1 h2 h3 h4 h5 h6, of "[]"] by auto
qed

text \<open>
  C2, as stated, fails: with \<open>isNight = false\<close> and \<open>onlyControlAtNight = true\<close> an
  occupied event for \<open>r1\<close> does call \<^verbatim>\<open>hue.groups.save\<close> for the matching group.
\<close>

theorem occupancy_saves_when_gated:
  "isNight (paired\<lparr>isNight := Some False\<rparr>) = Some False \<and>
   onlyControlAtNight (paired\<lparr>isNight := Some False\<rparr>) \<and>
   sensorNameById (data (paired\<lparr>isNight := Some False\<rparr>)) (js ''r1'') = Some (sanitizeName (name bedroom)) \<and>
   saves (snd (occupancy (js ''r1'') 1 (Fulfilled [bedroom]) (paired\<lparr>isNight := Some False\<rparr>)))
     = [bedroom]"
  by (simp add: paired_fields sanitize_bedroom occupancy_changed saves_append js_get_own
      truthy_prop_def)

text \<open>
  C2, amended. For an occupied event by day under \<open>onlyControlAtNight\<close>, with a matching
  group, the group is saved once with the on-state it was fetched with (nothing is
  switched on), and the stored occupancy of the sensor becomes true (for every sensor id
  but \<^verbatim>\<open>__proto__\<close>, under which an object stores nothing).
\<close>

theorem occupancy_gated:
  assumes occupied: "0 < val" and day: "isNight s = Some False" and flag: "onlyControlAtNight s"
      and changed: "sensorVals (data s) sensorId \<noteq> Some (0 < val)"
      and bridge: "hue s \<noteq> None"
      and named: "sensorNameById (data s) sensorId = Some nm" "nm \<noteq> []"
      and first: "\<forall>g'\<in>set pre. sanitizeName (name g') \<noteq> nm" "sanitizeName (name g) = nm"
  shows "group_calls (snd (occupancy sensorId val (Fulfilled (pre @ g # post)) s)) = [GetAll, Save g] \<and>
         (sensorId \<noteq> js ''__proto__'' \<longrightarrow>
          sensorVals (data (fst (occupancy sensorId val (Fulfilled (pre @ g # post)) s))) sensorId
            = Some True)"
  using occupied day flag changed bridge named
  by (simp add: occupancy_changed group_calls_append occupancy_groups_first [OF first] stored_def
      js_get_own truthy_prop_def js_set_plain)

theorem occupancy_gated_witness:
  "group_calls (snd (occupancy (js ''r1'') 1 (Fulfilled [hall, bedroom]) (paired\<lparr>isNight := Some False\<rparr>)))
     = [GetAll, Save bedroom] \<and>
   sensorVals (data (fst (occupancy (js ''r1'') 1 (Fulfilled [hall, bedroom])
     (paired\<lparr>isNight := Some False\<rparr>)))) (js ''r1'') = Some True"
proof -
  let ?s = "paired\<lparr>isNight := Some False\<rparr>"
  have h0: "0 < (1::int)" by simp
  have h0': "isNight ?s = Some False" by simp
  have h0'': "onlyControlAtNight ?s" by (simp add: paired_fields)
  have h1: "sensorVals (data ?s) (js ''r1'') \<noteq> Some (0 < (1::int))" by (simp add: paired_fields)
  have h2: "hue ?s \<noteq> None" by (simp add: paired_fields)
  have h3: "sensorNameById (data ?s) (js ''r1'') = Some (js ''bedroom'')" by (simp add: paired_fields)
  have h4: "js ''bedroom'' \<noteq> []" by simp
  have h5: "\<forall>g'\<in>set [hall]. sanitizeName (name g') \<noteq> js ''bedroom''" by (simp add: sanitize_hall)
  have h6: "sanitizeName (name bedroom) = js ''bedroom''" by (rule sanitize_bedroom)
  show ?thesis
    using occupancy_gated [OF h0 h0' h0'' h1 h2 h3 h4 h5 h6, of "[]"] by simp
qed

text \<open>
  C7. The same occupancy event delivered twice, for every sensor id but \<^verbatim>\<open>__proto__\<close>: the
  second delivery, whatever the bridge would answer and whether or not the write of the
  first has ended, changes nothing and has no effect (no write, no fetch, no save); the
  two deliveries together save at most one group, and exactly one when the first
  changes the stored value, a client is there, the sensor has a name and a fetched
  group matches it. Under the id \<^verbatim>\<open>__proto__\<close> the object \<open>data.sensorVals\<close> stores nothing,
  so every delivery counts as a change: the example has the second delivery fetch the
  groups again.
\<close>

theorem occupancy_twice:
  assumes "sensorId \<noteq> js ''__proto__''"
  shows
  "occupancy sensorId val answer' (fst (occupancy sensorId val answer s))
     = (fst (occupancy sensorId val answer s), []) \<and>
   occupancy sensorId val answer' (writeFile_done (fst (occupancy sensorId val answer s)))
     = (writeFile_done (fst (occupancy sensorId val answer s)), []) \<and>
   length (saves (snd (occupancy sensorId val answer s) @
                  snd (occupancy sensorId val answer' (fst (occupancy sensorId val answer s))))) \<le> 1 \<and>
   (sensorVals (data s) sensorId \<noteq> Some (0 < val) \<and> hue s \<noteq> None \<and>
    (\<exists>nm gs. sensorNameById (data s) sensorId = Some nm \<and> nm \<noteq> [] \<and> answer = Fulfilled gs \<and>
       (\<exists>g\<in>set gs. sanitizeName (name g) = nm)) \<longrightarrow>
    length (saves (snd (occupancy sensorId val answer s) @
                   snd (occupancy sensorId val answer' (fst (occupancy sensorId val answer s))))) = 1)"
proof -
  let ?s1 = "fst (occupancy sensorId val answer s)"
  have st: "sensorVals (data ?s1) sensorId = Some (0 < val)"
    using assms by (rule occupancy_stores)
  then have 1: "occupancy sensorId val answer' ?s1 = (?s1, [])" by (rule occupancy_unchanged)
  have "sensorVals (data (writeFile_done ?s1)) sensorId = Some (0 < val)"
    using st by (simp add: writeFile_done_def)
  then have 2: "occupancy sensorId val answer' (writeFile_done ?s1) = (writeFile_done ?s1, [])"
    by (rule occupancy_unchanged)
  have 3: "length (saves (snd (occupancy sensorId val answer s))) \<le> 1"
  proof (cases "sensorVals (data s) sensorId = Some (0 < val)")
    case True then show ?thesis by (simp add: occupancy_unchanged)
  next
    case False then show ?thesis
      by (simp add: occupancy_changed saves_append occupancy_groups_le split: settled.split)
  qed
  have 4: "length (saves (snd (occupancy sensorId val answer s))) = 1"
    if "sensorVals (data s) sensorId \<noteq> Some (0 < val)" "hue s \<noteq> None"
       "sensorNameById (data s) sensorId = Some nm" "nm \<noteq> []" "answer = Fulfilled gs"
       "\<exists>g\<in>set gs. sanitizeName (name g) = nm" for nm gs
  proof -
    from that(6) have "length (saves (occupancy_groups s (Value nm) (0 < val) gs)) = 1"
      by (rule occupancy_groups_one)
    with that show ?thesis
      by (simp add: occupancy_changed saves_append js_get_own truthy_prop_def)
  qed
  show ?thesis using 1 2 3 4 by auto
qed

theorem occupancy_twice_witness:
  "length (saves (snd (occupancy (js ''r1'') 1 (Fulfilled [bedroom]) (paired\<lparr>isNight := Some True\<rparr>)) @
      snd (occupancy (js ''r1'') 1 (Fulfilled [bedroom])
        (fst (occupancy (js ''r1'') 1 (Fulfilled [bedroom]) (paired\<lparr>isNight := Some True\<rparr>)))))) = 1 \<and>
   snd (occupancy (js ''__proto__'') 1 (Fulfilled [bedroom]) (paired\<lparr>isNight := Some True\<rparr>))
     = [GetAll] \<and>
   snd (occupancy (js ''__proto__'') 1 (Fulfilled [bedroom])
        (fst (occupancy (js ''__proto__'') 1 (Fulfilled [bedroom]) (paired\<lparr>isNight := Some True\<rparr>))))
     = [GetAll] \<and>
   snd (occupancy (js ''__proto__'') 1 (Fulfilled [bedroom])
        (writeFile_done
          (fst (occupancy (js ''__proto__'') 1 (Fulfilled [bedroom]) (paired\<lparr>isNight := Some True\<rparr>)))))
     = [WriteFile (data paired), GetAll]"
proof -
  let ?s = "paired\<lparr>isNight := Some True\<rparr>"
  have n: "js ''r1'' \<noteq> js ''__proto__''" by simp
  have h: "sensorVals (data ?s) (js ''r1'') \<noteq> Some (0 < (1::int)) \<and> hue ?s \<noteq> None \<and>
      (\<exists>nm gs. sensorNameById (data ?s) (js ''r1'') = Some nm \<and> nm \<noteq> [] \<and>
         Fulfilled [bedroom] = Fulfilled gs \<and> (\<exists>g\<in>set gs. sanitizeName (name g) = nm))"
    by (simp add: paired_fields sanitize_bedroom)
  have 1: "length (saves (snd (occupancy (js ''r1'') 1 (Fulfilled [bedroom]) ?s) @
      snd (occupancy (js ''r1'') 1 (Fulfilled [bedroom])
        (fst (occupancy (js ''r1'') 1 (Fulfilled [bedroom]) ?s))))) = 1"
    using occupancy_twice [OF n, where val = 1 and answer = "Fulfilled [bedroom]"
      and answer' = "Fulfilled [bedroom]" and s = ?s] h
    by blast
  have p: "occupancy (js ''__proto__'') 1 (Fulfilled [bedroom]) ?s = (?s, [GetAll])"
    by (simp add: occupancy_changed paired_fields stored_def js_set_def js_get_def proto_keys_def
        truthy_prop_def persistDataFile_def occupancy_groups_inherited)
  have q: "occupancy (js ''__proto__'') 1 (Fulfilled [bedroom]) (writeFile_done ?s)
      = (?s, [WriteFile (data paired), GetAll])"
    by (simp add: occupancy_changed paired_fields stored_def js_set_def js_get_def proto_keys_def
        truthy_prop_def persistDataFile_def occupancy_groups_inherited writeFile_done_def)
  show ?thesis using 1 by (simp add: p q)
qed

text \<open>The first variant saves the first match with \<^verbatim>\<open>isNight && occupied\<close>.\<close>

lemma main_occupancy_first_match:
  assumes "sensorVals (data s) room \<noteq> Some (0 < val)"
      and "sensorName = sanitizeName (replace_first (js ''Occupancy'') [] nm)"
      and "\<forall>g'\<in>set pre. sanitizeName (name g') \<noteq> sensorName" "sanitizeName (name g) = sensorName"
  shows "saves (snd (main_occupancy room nm val (Fulfilled (pre @ g # post)) s)) =
         [g\<lparr>on := js_and (isNight s) (Value (0 < val))\<rparr>]"
proof -
  have "main_occupancy_groups s' sensorName occ (pre @ g # post) =
        [Save (g\<lparr>on := js_and (isNight s') (Value occ)\<rparr>)]" for s' occ
    using assms(3,4) by (induction pre) auto
  then show ?thesis
    using assms(1,2)
    by (simp add: main_occupancy_def main_sensorValChanged_def Let_def saves_append
        js_get_eq_Value)
qed

section \<open>Day and night\<close>

lemma position_groups_eq:
  "position_groups s gs =
     map (\<lambda>g. Save (g\<lparr>on := stored_occupancy s g\<rparr>)) (filter (known_group s) gs)"
  by (induction gs) (simp_all add: known_group_def stored_occupancy_def)

lemma main_solar_groups_eq:
  "main_solar_groups s gs =
     map (\<lambda>g. Save (g\<lparr>on := js_and (isNight s) (stored_occupancy s g)\<rparr>)) (filter (known_group s) gs)"
  by (induction gs) (simp_all add: known_group_def stored_occupancy_def)

lemma known_group_isNight [simp]:
  "known_group (s\<lparr>isNight := x\<rparr>) = known_group s"
  "stored_occupancy (s\<lparr>isNight := x\<rparr>) = stored_occupancy s"
  by (simp_all add: known_group_def stored_occupancy_def fun_eq_iff)

lemma known_stored:
  assumes "sensorNames (data s) (sanitizeName (name g)) = Some sensorId"
      and "sensorVals (data s) sensorId = Some v"
  shows "known_group s g \<and> stored_occupancy s g = Value v"
  using assms by (simp add: known_group_def stored_occupancy_def js_in_def js_get_own key_of_def)

text \<open>
  C4. A day/night event has no effect at all (no fetch, no save) when \<open>isNight\<close> was
  unknown or when the derived value equals the previous one, in both variants.
\<close>

theorem position_no_flip:
  assumes "isNight s = None \<or> isNight s = Some (val = js ''sunset'')"
  shows "snd (position val answer s) = [] \<and> snd (main_solar val answer s) = []"
  using assms by (auto simp: position_def main_solar_def)

theorem position_no_flip_witness:
  "isNight init = None \<and> snd (position (js ''sunset'') (Fulfilled [bedroom]) init) = [] \<and>
   snd (main_solar (js ''sunset'') (Fulfilled [bedroom]) init) = []"
proof -
  have h: "isNight init = None \<or> isNight init = Some (js ''sunset'' = js ''sunset'')"
    by (simp add: init_def)
  show ?thesis using position_no_flip [OF h, of "Fulfilled [bedroom]"] by (simp add: init_def)
qed


text \<open>
  C3, as stated, fails on the latest variant: at a flip from night to day (sunrise),
  with a client, a known sensor name, a stored occupancy and a matching group, nothing
  is fetched or saved.
\<close>

theorem position_sunrise_no_save:
  "isNight (occupied_bedroom\<lparr>isNight := Some True\<rparr>) = Some True \<and>
   isNight (fst (position (js ''sunrise'') (Fulfilled [bedroom]) (occupied_bedroom\<lparr>isNight := Some True\<rparr>)))
     = Some False \<and>
   hue (occupied_bedroom\<lparr>isNight := Some True\<rparr>) \<noteq> None \<and>
   sensorNames (data (occupied_bedroom\<lparr>isNight := Some True\<rparr>)) (sanitizeName (name bedroom)) = Some (js ''r1'') \<and>
   sensorVals (data (occupied_bedroom\<lparr>isNight := Some True\<rparr>)) (js ''r1'') = Some True \<and>
   snd (position (js ''sunrise'') (Fulfilled [bedroom]) (occupied_bedroom\<lparr>isNight := Some True\<rparr>)) = []"
  by (simp add: occupied_bedroom_def paired_fields sanitize_bedroom position_def Let_def)


text \<open>
  C3, amended. In the latest variant a flip from day to night (sunset) with a client
  fetches the groups and saves, once each and in order, exactly the groups whose
  sanitized name is \<^verbatim>\<open>in data.sensorNames\<close>, with the on-state \<open>data.sensorVals\<close> gives for the
  id under that name; a flip from night to day has no effect there. In the first
  variant (the second script of \<^verbatim>\<open>part_000\<close> has the same branch) a flip in either
  direction saves exactly these groups, with on-state \<^verbatim>\<open>isNight && \<close> that value for the
  new \<open>isNight\<close>. For a group whose sanitized name is a stored sensor name with a stored
  occupancy \<open>v\<close>, that value is \<open>v\<close>.
\<close>

theorem position_flip:
  "(isNight s = Some False \<and> val = js ''sunset'' \<and> hue s \<noteq> None \<longrightarrow>
      snd (position val (Fulfilled gs) s) =
        GetAll # map (\<lambda>g. Save (g\<lparr>on := stored_occupancy s g\<rparr>)) (filter (known_group s) gs)) \<and>
   (isNight s = Some True \<and> val \<noteq> js ''sunset'' \<longrightarrow>
      snd (position val (Fulfilled gs) s) = []) \<and>
   (isNight s = Some (val \<noteq> js ''sunset'') \<longrightarrow>
      snd (main_solar val (Fulfilled gs) s) =
        GetAll # map (\<lambda>g. Save (g\<lparr>on := js_and (Some (val = js ''sunset'')) (stored_occupancy s g)\<rparr>))
                   (filter (known_group s) gs)) \<and>
   (\<forall>g sensorId v.
      sensorNames (data s) (sanitizeName (name g)) = Some sensorId \<and>
      sensorVals (data s) sensorId = Some v \<longrightarrow>
      known_group s g \<and> stored_occupancy s g = Value v)"
proof (intro conjI impI allI)
  assume "isNight s = Some False \<and> val = js ''sunset'' \<and> hue s \<noteq> None"
  then show "snd (position val (Fulfilled gs) s) =
      GetAll # map (\<lambda>g. Save (g\<lparr>on := stored_occupancy s g\<rparr>)) (filter (known_group s) gs)"
    by (simp add: position_def Let_def position_groups_eq)
next
  assume "isNight s = Some True \<and> val \<noteq> js ''sunset''"
  then show "snd (position val (Fulfilled gs) s) = []" by (simp add: position_def Let_def)
next
  assume "isNight s = Some (val \<noteq> js ''sunset'')"
  then show "snd (main_solar val (Fulfilled gs) s) =
      GetAll # map (\<lambda>g. Save (g\<lparr>on := js_and (Some (val = js ''sunset'')) (stored_occupancy s g)\<rparr>))
                 (filter (known_group s) gs)"
    by (simp add: main_solar_def Let_def main_solar_groups_eq)
next
  fix g :: group and sensorId v
  assume "sensorNames (data s) (sanitizeName (name g)) = Some sensorId \<and>
      sensorVals (data s) sensorId = Some v"
  then show "known_group s g" and "stored_occupancy s g = Value v"
    using known_stored by blast+
qed

lemma known_examples:
  "known_group occupied_bedroom bedroom" "\<not> known_group occupied_bedroom hall"
  "stored_occupancy occupied_bedroom bedroom = Value True"
  by (simp_all add: known_group_def stored_occupancy_def js_in_def js_get_def key_of_def
      proto_keys_def occupied_bedroom_def paired_fields sanitize_bedroom sanitize_hall)

theorem position_flip_witness:
  "snd (position (js ''sunset'') (Fulfilled [hall, bedroom]) (occupied_bedroom\<lparr>isNight := Some False\<rparr>))
     = [GetAll, Save (bedroom\<lparr>on := Value True\<rparr>)] \<and>
   snd (position (js ''sunrise'') (Fulfilled [hall, bedroom]) (occupied_bedroom\<lparr>isNight := Some True\<rparr>))
     = [] \<and>
   snd (main_solar (js ''sunrise'') (Fulfilled [hall, bedroom]) (occupied_bedroom\<lparr>isNight := Some True\<rparr>))
     = [GetAll, Save (bedroom\<lparr>on := Value False\<rparr>)] \<and>
   snd (main_solar (js ''sunset'') (Fulfilled [hall, bedroom]) (occupied_bedroom\<lparr>isNight := Some False\<rparr>))
     = [GetAll, Save (bedroom\<lparr>on := Value True\<rparr>)]"
proof -
  let ?d = "occupied_bedroom\<lparr>isNight := Some False\<rparr>"
  let ?n = "occupied_bedroom\<lparr>isNight := Some True\<rparr>"
  have "hue ?d \<noteq> None" by (simp add: occupied_bedroom_def paired_fields)
  then show ?thesis
    using position_flip [of ?d "js ''sunset''" "[hall, bedroom]"]
      position_flip [of ?n "js ''sunrise''" "[hall, bedroom]"]
    by (simp add: known_examples js_and_def)
qed

text \<open>
  A group whose sanitized name is a key of \<^verbatim>\<open>Object.prototype\<close> is \<^verbatim>\<open>in data.sensorNames\<close>
  too: it is saved with an on-state that is \<^verbatim>\<open>undefined\<close>.
\<close>

lemma position_prototype_group:
  "snd (position (js ''sunset'') (Fulfilled [\<lparr>name = js ''Constructor'', on = Value True\<rparr>])
     (occupied_bedroom\<lparr>isNight := Some False\<rparr>))
   = [GetAll, Save \<lparr>name = js ''Constructor'', on = Undefined\<rparr>]"
proof -
  have "sanitizeName (js ''Constructor'') = js ''constructor''" by (simp add: sanitize_simps)
  then show ?thesis
    by (simp add: position_def Let_def js_in_def js_get_def key_of_def proto_keys_def
        occupied_bedroom_def paired_fields)
qed

section \<open>The name maps\<close>

text \<open>Only \<^verbatim>\<open>updateSensorName\<close> writes the name maps of the latest variant.\<close>

lemma names_unchanged:
  "sensorNames (data (fst (persistDataFile s))) = sensorNames (data s)"
  "sensorNameById (data (fst (persistDataFile s))) = sensorNameById (data s)"
  "sensorNames (data (fst (saveUsername u s))) = sensorNames (data s)"
  "sensorNameById (data (fst (saveUsername u s))) = sensorNameById (data s)"
  "sensorNames (data (fst (snd (sensorValChanged sensorId occupied s)))) = sensorNames (data s)"
  "sensorNameById (data (fst (snd (sensorValChanged sensorId occupied s)))) = sensorNameById (data s)"
  "sensorNames (data (fst (disconnect s))) = sensorNames (data s)"
  "sensorNameById (data (fst (disconnect s))) = sensorNameById (data s)"
  "sensorNames (data (fst (position val answer s))) = sensorNames (data s)"
  "sensorNameById (data (fst (position val answer s))) = sensorNameById (data s)"
  "sensorNames (data (fst (night_only b s))) = sensorNames (data s)"
  "sensorNameById (data (fst (night_only b s))) = sensorNameById (data s)"
  by (simp_all add: saveUsername_def sensorValChanged_def disconnect_def position_def night_only_def
        split_beta Let_def)

lemma occupancy_names_unchanged:
  "sensorNames (data (fst (occupancy sensorId val answer s))) = sensorNames (data s)"
  "sensorNameById (data (fst (occupancy sensorId val answer s))) = sensorNameById (data s)"
  by (cases "sensorVals (data s) sensorId = Some (0 < val)";
      simp add: occupancy_unchanged occupancy_changed stored_def)+

text \<open>
  \<^verbatim>\<open>updateSensorName\<close> writes nothing when the name already maps to the id, whatever the
  reverse map holds; and under the name \<^verbatim>\<open>__proto__\<close> the forward map stores nothing while
  the reverse map is written.
\<close>

lemma updateSensorName_skip:
  "sensorNames (data s) nm = Some sensorId \<Longrightarrow> updateSensorName sensorId nm s = (s, [])"
  by (simp add: updateSensorName_def js_get_own)

lemma updateSensorName_write:
  assumes "sensorNames (data s) nm \<noteq> Some sensorId"
  shows "data (fst (updateSensorName sensorId nm s)) =
     (data s)\<lparr>sensorNames := js_set (sensorNames (data s)) nm sensorId,
               sensorNameById := js_set (sensorNameById (data s)) sensorId nm\<rparr>"
  using assms by (simp add: updateSensorName_def js_get_eq_Value)

lemma updateSensorName_proto_name:
  assumes "sensorNames (data s) (js ''__proto__'') = None" "sensorId \<noteq> js ''__proto__''"
  shows "sensorNames (data (fst (updateSensorName sensorId (js ''__proto__'') s))) = sensorNames (data s) \<and>
         sensorNameById (data (fst (updateSensorName sensorId (js ''__proto__'') s))) sensorId
           = Some (js ''__proto__'')"
  using assms by (simp add: updateSensorName_write js_set_def)

text \<open>
  C8. The two name maps are not kept mutually consistent. When a sensor is announced
  under a name \<open>a\<close>, then under another name \<open>b\<close> that did not map to it, then under \<open>a\<close>
  again, the last announcement finds the stale entry of \<open>a\<close> in \<open>sensorNames\<close> and writes
  nothing: \<open>sensorNames\<close> maps both names to the id while \<open>sensorNameById\<close> still maps the
  id to \<open>b\<close>. In the example the sensor \<open>r1\<close>, last announced as \<open>Bedroom\<close>, drives the
  group \<open>Lounge\<close>.
\<close>

theorem rename_back_stale:
  assumes "a \<noteq> b" and "sensorNames (data s) b \<noteq> Some sensorId"
      and "a \<noteq> js ''__proto__''" "b \<noteq> js ''__proto__''" "sensorId \<noteq> js ''__proto__''"
  shows "sensorNames (data (fst (updateSensorName sensorId a
           (fst (updateSensorName sensorId b (fst (updateSensorName sensorId a s))))))) a
           = Some sensorId \<and>
         sensorNames (data (fst (updateSensorName sensorId a
           (fst (updateSensorName sensorId b (fst (updateSensorName sensorId a s))))))) b
           = Some sensorId \<and>
         sensorNameById (data (fst (updateSensorName sensorId a
           (fst (updateSensorName sensorId b (fst (updateSensorName sensorId a s))))))) sensorId
           = Some b"
proof -
  let ?s1 = "fst (updateSensorName sensorId a s)"
  let ?s2 = "fst (updateSensorName sensorId b ?s1)"
  have 1: "sensorNames (data ?s1) a = Some sensorId"
  proof (cases "sensorNames (data s) a = Some sensorId")
    case True then show ?thesis by (simp add: updateSensorName_skip)
  next
    case False then show ?thesis using assms(3) by (simp add: updateSensorName_write js_set_plain)
  qed
  have b1: "sensorNames (data ?s1) b \<noteq> Some sensorId"
  proof (cases "sensorNames (data s) a = Some sensorId")
    case True then show ?thesis using assms(2) by (simp add: updateSensorName_skip)
  next
    case False then show ?thesis
      using assms(1,2,3) by (simp add: updateSensorName_write js_set_plain)
  qed
  then have d2: "data ?s2 =
      (data ?s1)\<lparr>sensorNames := js_set (sensorNames (data ?s1)) b sensorId,
                  sensorNameById := js_set (sensorNameById (data ?s1)) sensorId b\<rparr>"
    by (rule updateSensorName_write)
  have 2: "sensorNames (data ?s2) a = Some sensorId" "sensorNames (data ?s2) b = Some sensorId"
    "sensorNameById (data ?s2) sensorId = Some b"
    using 1 assms(1,4,5) by (simp_all add: d2 js_set_plain)
  from 2(1) have "updateSensorName sensorId a ?s2 = (?s2, [])" by (rule updateSensorName_skip)
  with 2 show ?thesis by simp
qed

lemma renamed_back_fields:
  "isNight renamed_back = Some True" "onlyControlAtNight renamed_back" "hue renamed_back \<noteq> None"
  "sensorVals (data renamed_back) = Map.empty"
  by (simp_all add: renamed_back_def name_event_def updateSensorName_def persistDataFile_def
      writeFile_done_def paired_fields sanitize_literals js_get_eq_Value js_set_plain)

theorem rename_back_witness:
  "renamed_back =
     fst (name_event (js ''r1'') (js ''Bedroom'')
       (fst (name_event (js ''r1'') (js ''Lounge'') (writeFile_done (paired\<lparr>isNight := Some True\<rparr>))))) \<and>
   sensorNames (data renamed_back) (js ''bedroom'') = Some (js ''r1'') \<and>
   sensorNameById (data renamed_back) (js ''r1'') = Some (js ''lounge'') \<and>
   group_calls (snd (occupancy (js ''r1'') 1 (Fulfilled [bedroom, lounge]) renamed_back))
     = [GetAll, Save (lounge\<lparr>on := Value True\<rparr>)]"
proof -
  let ?s = "writeFile_done (paired\<lparr>isNight := Some True\<rparr>)"
  have s0: "updateSensorName (js ''r1'') (js ''bedroom'') ?s = (?s, [])"
    by (rule updateSensorName_skip) (simp add: writeFile_done_def paired_fields)
  have r: "renamed_back = fst (updateSensorName (js ''r1'') (js ''bedroom'')
      (fst (updateSensorName (js ''r1'') (js ''lounge'')
        (fst (updateSensorName (js ''r1'') (js ''bedroom'') ?s)))))"
    by (simp add: renamed_back_def name_event_def sanitize_literals s0)
  have h: "js ''bedroom'' \<noteq> js ''lounge''"
    "sensorNames (data ?s) (js ''lounge'') \<noteq> Some (js ''r1'')"
    "js ''bedroom'' \<noteq> js ''__proto__''" "js ''lounge'' \<noteq> js ''__proto__''"
    "js ''r1'' \<noteq> js ''__proto__''"
    by (simp_all add: writeFile_done_def paired_fields)
  have n: "sensorNames (data renamed_back) (js ''bedroom'') = Some (js ''r1'')"
    "sensorNameById (data renamed_back) (js ''r1'') = Some (js ''lounge'')"
    using rename_back_stale [OF h] unfolding r [symmetric] by simp_all
  have "group_calls (snd (occupancy (js ''r1'') 1 (Fulfilled [bedroom, lounge]) renamed_back))
     = [GetAll, Save (lounge\<lparr>on := Value True\<rparr>)]"
    using n(2)
    by (simp add: occupancy_changed renamed_back_fields group_calls_append js_get_own
        truthy_prop_def sanitize_bedroom sanitize_lounge)
  with n show ?thesis by (simp add: renamed_back_def)
qed

section \<open>The authentication round\<close>

lemma createUser_status:
  "fst (createUser api h s) =
     (if created api h then CONNECTED
      else if create api h = HuejayError 101 then NO_LINK_PUSHED else FAILURE)"
  by (simp add: createUser_def created_def split_beta Let_def split: create_result.split)

lemma createUser_quiet:
  "published (snd (snd (createUser api h s))) = []"
  "group_calls (snd (snd (createUser api h s))) = []"
  by (simp_all add: createUser_def saveUsername_def split_beta Let_def split: create_result.split)

lemma settle_status: "fst (authenticateUser_settle api u0 h s) = status_of api u0 h"
  by (auto simp: authenticateUser_settle_def status_of_def authenticates_def createUser_status
           split: option.split)

lemma settle_quiet:
  "published (snd (snd (authenticateUser_settle api u0 h s))) = []"
  "group_calls (snd (snd (authenticateUser_settle api u0 h s))) = []"
  by (simp_all add: authenticateUser_settle_def createUser_quiet split: option.split)

lemma settle_all_status: "fst (settle_all api u0 hs s) = map (status_of api u0) hs"
  by (induction hs arbitrary: s) (simp_all add: split_beta settle_status)

lemma settle_all_quiet:
  "published (snd (snd (settle_all api u0 hs s))) = []"
  "group_calls (snd (snd (settle_all api u0 hs s))) = []"
  by (induction hs arbitrary: s)
     (simp_all add: split_beta published_append group_calls_append settle_quiet)

lemma report_published:
  "published (report rs) =
     [Some (if length (filter (\<lambda>x. x = CONNECTED) rs) = 1 then CONNECTED
            else if FAILURE \<in> set rs then FAILURE else NO_LINK_PUSHED)]"
  by (simp add: report_def publish_def truthy_def list_ex_iff)

lemma validateBridges_published:
  assumes "bridgesFrd api bridges \<noteq> []"
  shows "published (snd (validateBridges api bridges s)) =
         published (report (map (status_of api (hueUsername (data s))) (bridgesFrd api bridges)))"
  using assms
  by (simp add: validateBridges_def Let_def split_beta published_append settle_all_quiet
        settle_all_status)

lemma validateBridges_no_group_calls: "group_calls (snd (validateBridges api bridges s)) = []"
  by (simp add: validateBridges_def Let_def split_beta group_calls_append settle_all_quiet report_def)

lemma status_of_connected:
  "status_of api u0 h = CONNECTED \<longleftrightarrow> authenticates api u0 h \<or> created api h"
  by (simp add: status_of_def)

lemma status_of_failure:
  "status_of api u0 h = FAILURE \<longleftrightarrow>
     \<not> authenticates api u0 h \<and> \<not> created api h \<and> create api h \<noteq> HuejayError 101"
  by (simp add: status_of_def)

lemma report_two_successes:
  assumes "2 \<le> length (filter (\<lambda>x. x = CONNECTED) rs)"
  shows "report rs = [Publish (Some (if FAILURE \<in> set rs then FAILURE else NO_LINK_PUSHED))]"
  using assms by (simp add: report_def publish_def truthy_def list_ex_iff)


text \<open>
  C6. When there are candidates and none of them succeeds, the status published is
  \<open>no_link_pushed\<close> if \<^verbatim>\<open>users.create\<close> failed on every candidate with the error of type
  101 (link button not pressed), and \<open>fail\<close> if any candidate failed otherwise.
\<close>

theorem no_success_status:
  assumes survivors: "bridgesFrd api bridges \<noteq> []"
      and failed: "\<forall>h\<in>set (bridgesFrd api bridges).
                     \<not> authenticates api (hueUsername (data s)) h \<and> \<not> created api h"
  shows "published (snd (validateBridges api bridges s)) =
         [Some (if \<forall>h\<in>set (bridgesFrd api bridges). create api h = HuejayError 101
                then NO_LINK_PUSHED else FAILURE)]"
proof -
  let ?rs = "map (status_of api (hueUsername (data s))) (bridgesFrd api bridges)"
  have rs: "\<forall>h\<in>set (bridgesFrd api bridges). status_of api (hueUsername (data s)) h =
              (if create api h = HuejayError 101 then NO_LINK_PUSHED else FAILURE)"
    using failed by (simp add: status_of_def)
  then have "filter (\<lambda>x. x = CONNECTED) ?rs = []"
    by (auto simp: filter_empty_conv)
  moreover have "FAILURE \<in> set ?rs \<longleftrightarrow>
      \<not> (\<forall>h\<in>set (bridgesFrd api bridges). create api h = HuejayError 101)"
    using rs by (auto simp: image_iff) 
  ultimately show ?thesis
    using survivors by (simp add: validateBridges_published report_published)
qed

theorem no_success_status_witness:
  "published (snd (validateBridges pressed_nowhere [js ''10.0.0.2'', js ''10.0.0.3''] init))
     = [Some NO_LINK_PUSHED] \<and>
   published (snd (validateBridges one_broken [js ''10.0.0.2'', js ''10.0.0.3''] init))
     = [Some FAILURE]"
proof -
  let ?bs = "[js ''10.0.0.2'', js ''10.0.0.3'']"
  have p1: "bridgesFrd pressed_nowhere ?bs \<noteq> []" and b1: "bridgesFrd one_broken ?bs \<noteq> []"
    by (simp_all add: bridgesFrd_two)
  have p2: "\<forall>h\<in>set (bridgesFrd pressed_nowhere ?bs).
      \<not> authenticates pressed_nowhere (hueUsername (data init)) h \<and> \<not> created pressed_nowhere h"
    by (simp add: bridgesFrd_two authenticates_def created_def pressed_nowhere_def init_def)
  have b2: "\<forall>h\<in>set (bridgesFrd one_broken ?bs).
      \<not> authenticates one_broken (hueUsername (data init)) h \<and> \<not> created one_broken h"
    by (simp add: bridgesFrd_two authenticates_def created_def one_broken_def init_def)
  have c: "create pressed_nowhere = (\<lambda>h. HuejayError 101)"
    "create one_broken = (\<lambda>h. if h = js ''10.0.0.3'' then OtherError else HuejayError 101)"
    by (simp_all add: pressed_nowhere_def one_broken_def)
  show ?thesis
    using no_success_status [OF p1 p2] no_success_status [OF b1 b2]
    by (simp add: bridgesFrd_two c)
qed

text \<open>
  C5. When two or more candidates succeed, the pairing calls no group operation and
  publishes \<open>fail\<close> if some candidate failed with another error than 101, and otherwise
  \<open>no_link_pushed\<close>, the status of a link button that was not pressed. The example
  shows the rest: with two bridges that accept the stored user, \<open>hue\<close> is left holding
  the client of the last one, and the next occupancy event fetches and saves a group.
\<close>

theorem several_successes_status:
  assumes "2 \<le> length (filter (\<lambda>h. authenticates api (hueUsername (data s)) h \<or> created api h)
                           (bridgesFrd api bridges))"
  shows "published (snd (validateBridges api bridges s)) =
           [Some (if list_ex (\<lambda>h. \<not> authenticates api (hueUsername (data s)) h \<and> \<not> created api h \<and>
                                 create api h \<noteq> HuejayError 101) (bridgesFrd api bridges)
                  then FAILURE else NO_LINK_PUSHED)] \<and>
         group_calls (snd (validateBridges api bridges s)) = []"
proof -
  let ?u = "hueUsername (data s)"
  let ?hs = "bridgesFrd api bridges"
  let ?rs = "map (status_of api ?u) ?hs"
  from assms have ne: "?hs \<noteq> []" by auto
  have "length (filter (\<lambda>x. x = CONNECTED) ?rs) =
        length (filter (\<lambda>h. authenticates api ?u h \<or> created api h) ?hs)"
    by (simp add: filter_map o_def status_of_connected)
  with assms have 1: "length (filter (\<lambda>x. x = CONNECTED) ?rs) \<noteq> 1" by simp
  have 2: "FAILURE \<in> set ?rs \<longleftrightarrow>
      list_ex (\<lambda>h. \<not> authenticates api ?u h \<and> \<not> created api h \<and> create api h \<noteq> HuejayError 101) ?hs"
    by (auto simp: list_ex_iff image_iff status_of_failure eq_commute [of FAILURE])
  have "published (snd (validateBridges api bridges s)) = published (report ?rs)"
    using ne by (rule validateBridges_published)
  with 1 2 show ?thesis
    by (simp add: report_published validateBridges_no_group_calls)
qed

theorem two_bridges_authenticate:
  "authenticates both_authenticate (hueUsername (data known_user)) (js ''10.0.0.2'') \<and>
   authenticates both_authenticate (hueUsername (data known_user)) (js ''10.0.0.3'') \<and>
   published (snd (validateBridges both_authenticate [js ''10.0.0.2'', js ''10.0.0.3''] known_user))
     = [Some NO_LINK_PUSHED] \<and>
   hue (fst (validateBridges both_authenticate [js ''10.0.0.2'', js ''10.0.0.3''] known_user))
     = Some \<lparr>host = js ''10.0.0.3'', username = Some (js ''hiome'')\<rparr> \<and>
   group_calls (snd (occupancy (js ''r1'') 1 (Fulfilled [bedroom])
      (fst (validateBridges both_authenticate [js ''10.0.0.2'', js ''10.0.0.3''] known_user))))
     = [GetAll, Save (bedroom\<lparr>on := Value True\<rparr>)]"
proof -
  let ?hs = "[js ''10.0.0.2'', js ''10.0.0.3'']"
  have a: "isAuthenticated both_authenticate = (\<lambda>h u. True)" by (simp add: both_authenticate_def)
  have h: "2 \<le> length (filter (\<lambda>h. authenticates both_authenticate (hueUsername (data known_user)) h \<or>
                created both_authenticate h) (bridgesFrd both_authenticate ?hs))"
    by (simp add: bridgesFrd_two authenticates_def known_user_fields a)
  have 1: "published (snd (validateBridges both_authenticate ?hs known_user)) = [Some NO_LINK_PUSHED]"
    using several_successes_status [OF h]
    by (simp add: bridgesFrd_two authenticates_def known_user_fields a)
  have v: "fst (validateBridges both_authenticate ?hs known_user) =
      known_user\<lparr>hue := Some \<lparr>host = js ''10.0.0.3'', username = Some (js ''hiome'')\<rparr>\<rparr>"
    by (simp add: validateBridges_def bridgesFrd_two authenticateUser_call_def
        authenticateUser_settle_def known_user_fields truthy_def a)
  show ?thesis
    unfolding v using 1
    by (simp add: authenticates_def a known_user_fields occupancy_changed group_calls_append
        sanitize_bedroom js_get_own truthy_prop_def)
qed

end
